theory Spec2Isabelle
  imports Complex_Main "HOL-Library.Log_Nat"
begin

section \<open>The statistics route of the item API (backend/src/routes/stats.js)\<close>

text \<open>
  The module keeps three variables (\<open>statsCache\<close>, \<open>cacheTimestamp\<close>, \<open>watcher\<close>), one
  pure function (\<open>calculateStats\<close>) and four entry points: \<open>loadStats\<close>,
  \<open>setupFileWatcher\<close> with the callback it registers, the \<open>GET /\<close> handler and
  \<open>router._cleanup\<close>.

  Conventions of the embedding:
  \<^item> A JavaScript number is a binary64 value: a rational that is representable, one of
    the two infinities, or \<open>NaN\<close>. Every arithmetic operation rounds its exact result to
    the nearest representable number, ties to even, and overflows to an infinity. The
    two zeros are one: they print alike in JSON, and the code divides by an array length
    of at least 1 and by the literal 100 only.
  \<^item> An item record has the four fields the writer of the store produces; \<open>price\<close> is a
    number and \<open>category\<close> a string.
  \<^item> A plain object used as a dictionary is a map of its own properties together with
    the property names it inherits from \<open>Object.prototype\<close>.
  \<^item> A call that spreads an array into its arguments throws a \<open>RangeError\<close> when the
    array is longer than the engine's stack allows; that length is the parameter
    \<open>max_args\<close>.
  \<^item> \<open>Date.now()\<close> is an \<open>int\<close> (milliseconds) supplied with each event.
\<close>

subsection \<open>Numbers\<close>

text \<open>
  The binary exponent of a rational other than 0: the integer \<open>e\<close> with
  \<open>2^e \<le> |x| < 2^(e + 1)\<close>, found from the bit lengths of numerator and denominator.
\<close>

definition exponent :: "rat \<Rightarrow> int" where
  "exponent x =
     (let (p, q) = quotient_of \<bar>x\<bar>; k = bitlen p - bitlen q
      in if 2 powi k \<le> \<bar>x\<bar> then k else k - 1)"

definition round_half_even :: "rat \<Rightarrow> int" where
  "round_half_even k =
     (let f = \<lfloor>k\<rfloor>; d = k - of_int f
      in if d < 1 / 2 then f else if 1 / 2 < d then f + 1
         else if even f then f else f + 1)"

text \<open>
  Rounding to binary64 with an unbounded exponent above: 53 significant bits for a normal
  number, multiples of \<open>2^-1074\<close> below \<open>2^-1022\<close>.
\<close>

definition fl :: "rat \<Rightarrow> rat" where
  "fl x =
     (if x = 0 then 0
      else (let e = max (exponent x) (- 1022); ulp = 2 powi (e - 52)
            in of_int (round_half_even (x / ulp)) * ulp))"

datatype number = Finite rat | PosInf | NegInf | NaN

definition signed_inf :: "bool \<Rightarrow> number" where
  "signed_inf neg = (if neg then NegInf else PosInf)"

text \<open>The number an exact result becomes: it overflows when it rounds to \<open>2^1024\<close> or more.\<close>

definition to_double :: "rat \<Rightarrow> number" where
  "to_double x =
     (let y = fl x
      in if y \<noteq> 0 \<and> 1024 \<le> exponent y then signed_inf (y < 0) else Finite y)"

text \<open>The number \<open>JSON.parse\<close> makes of a decimal literal of the store.\<close>

definition JSON_number :: "rat \<Rightarrow> number" where
  "JSON_number d = to_double d"

fun negative :: "number \<Rightarrow> bool" where
  "negative (Finite a) = (a < 0)"
| "negative NegInf = True"
| "negative x = False"

fun js_add :: "number \<Rightarrow> number \<Rightarrow> number" where
  "js_add (Finite a) (Finite b) = to_double (a + b)"
| "js_add NaN y = NaN"
| "js_add x NaN = NaN"
| "js_add PosInf NegInf = NaN"
| "js_add NegInf PosInf = NaN"
| "js_add PosInf y = PosInf"
| "js_add x PosInf = PosInf"
| "js_add NegInf y = NegInf"
| "js_add x NegInf = NegInf"

fun js_mul :: "number \<Rightarrow> number \<Rightarrow> number" where
  "js_mul (Finite a) (Finite b) = to_double (a * b)"
| "js_mul NaN y = NaN"
| "js_mul x NaN = NaN"
| "js_mul x y =
     (if x = Finite 0 \<or> y = Finite 0 then NaN else signed_inf (negative x \<noteq> negative y))"

text \<open>A zero divisor is taken as \<open>+0\<close>; the code has none.\<close>

fun js_div :: "number \<Rightarrow> number \<Rightarrow> number" where
  "js_div (Finite a) (Finite b) =
     (if b = 0 then (if a = 0 then NaN else signed_inf (a < 0)) else to_double (a / b))"
| "js_div NaN y = NaN"
| "js_div x NaN = NaN"
| "js_div (Finite a) y = Finite 0"
| "js_div x (Finite b) = signed_inf (negative x \<noteq> (b < 0))"
| "js_div x y = NaN"

text \<open>
  \<open>Math.round(x)\<close> is the integer nearest to \<open>x\<close>, a tie going towards \<open>+\<infinity>\<close>, that is
  \<open>floor(x + 0.5)\<close> taken exactly; the result is representable.
\<close>

fun Math_round :: "number \<Rightarrow> number" where
  "Math_round (Finite x) = Finite (of_int \<lfloor>x + 1 / 2\<rfloor>)"
| "Math_round x = x"

fun js_min :: "number \<Rightarrow> number \<Rightarrow> number" where
  "js_min NaN y = NaN"
| "js_min x NaN = NaN"
| "js_min NegInf y = NegInf"
| "js_min x NegInf = NegInf"
| "js_min PosInf y = y"
| "js_min x PosInf = x"
| "js_min (Finite a) (Finite b) = Finite (min a b)"

fun js_max :: "number \<Rightarrow> number \<Rightarrow> number" where
  "js_max NaN y = NaN"
| "js_max x NaN = NaN"
| "js_max PosInf y = PosInf"
| "js_max x PosInf = PosInf"
| "js_max NegInf y = y"
| "js_max x NegInf = x"
| "js_max (Finite a) (Finite b) = Finite (max a b)"

text \<open>
  \<open>Math.min(...)\<close> starts from \<open>Infinity\<close> and \<open>Math.max(...)\<close> from \<open>-Infinity\<close>, which is
  what they return for no argument; a \<open>NaN\<close> argument makes the result \<open>NaN\<close>.
\<close>

definition Math_min :: "number list \<Rightarrow> number" where
  "Math_min args = foldl js_min PosInf args"

definition Math_max :: "number list \<Rightarrow> number" where
  "Math_max args = foldl js_max NegInf args"

subsection \<open>Data\<close>

record item =
  item_id :: int
  name :: string
  category :: string
  price :: number

text \<open>The bucket \<open>{ count, totalValue }\<close> kept per category (lines 37, 39, 40).\<close>

record category_stats =
  count :: nat
  cat_totalValue :: number

record price_range =
  range_min :: number
  range_max :: number

type_synonym categories_object = "string \<rightharpoonup> category_stats"

record stats =
  total :: nat
  averagePrice :: number
  totalValue :: number
  categories :: categories_object
  priceRange :: price_range

text \<open>The argument of \<open>calculateStats\<close>: \<open>null\<close>, \<open>undefined\<close> or an array of item records.\<close>

datatype items_arg = Null | Undefined | Array "item list"

text \<open>
  A thrown value: an \<open>Error\<close> with its message, or the \<open>RangeError\<close> of a call with too
  many arguments.
\<close>

datatype error = Error string | RangeError

subsection \<open>The accumulator object of the category breakdown\<close>

text \<open>
  The property names every plain object inherits from \<open>Object.prototype\<close> (ECMAScript,
  with the legacy accessors of its Annex B that Node.js provides). Each of them reads as
  a function or an object, hence as a truthy value.
\<close>

definition Object_prototype_keys :: "string list" where
  "Object_prototype_keys =
     [''constructor'', ''__defineGetter__'', ''__defineSetter__'', ''hasOwnProperty'',
      ''__lookupGetter__'', ''__lookupSetter__'', ''isPrototypeOf'',
      ''propertyIsEnumerable'', ''toString'', ''valueOf'', ''__proto__'',
      ''toLocaleString'']"

text \<open>
  What \<open>acc[k]\<close> reads on the accumulator object: an own bucket, a built-in reached through
  the prototype chain, or \<open>undefined\<close>.
\<close>

datatype property_value = Own category_stats | Builtin | Missing

definition get_property :: "categories_object \<Rightarrow> string \<Rightarrow> property_value" where
  "get_property acc k =
     (case acc k of
        Some b \<Rightarrow> Own b
      | None \<Rightarrow> if k \<in> set Object_prototype_keys then Builtin else Missing)"

fun truthy :: "property_value \<Rightarrow> bool" where
  "truthy (Own b) = True"
| "truthy Builtin = True"
| "truthy Missing = False"

subsection \<open>\<open>calculateStats\<close> (lines 19 to 58)\<close>

text \<open>
  The callback of the second \<open>reduce\<close> (lines 35 to 42). Line 36 tests \<open>acc[item.category]\<close>
  for truthiness; lines 39 and 40 then update the object that \<open>acc[item.category]\<close> denotes.
  When that object is a built-in inherited from the prototype, the two updates write
  \<open>count\<close> and \<open>totalValue\<close> onto the built-in and the accumulator gets no own property.
\<close>

definition category_step :: "categories_object \<Rightarrow> item \<Rightarrow> categories_object" where
  "category_step acc it =
     (let k = category it;
          acc1 = (if \<not> truthy (get_property acc k)
                  then acc(k \<mapsto> \<lparr>count = 0, cat_totalValue = Finite 0\<rparr>) else acc)
      in case get_property acc1 k of
           Own b \<Rightarrow>
             (let b1 = b\<lparr>count := count b + 1\<rparr>;
                  b2 = b1\<lparr>cat_totalValue := js_add (cat_totalValue b1) (price it)\<rparr>
              in acc1(k \<mapsto> b2))
         | Builtin \<Rightarrow> acc1
         | Missing \<Rightarrow> acc1)"

definition empty_stats :: stats where
  "empty_stats =
     \<lparr>total = 0, averagePrice = Finite 0, totalValue = Finite 0, categories = Map.empty,
      priceRange = \<lparr>range_min = Finite 0, range_max = Finite 0\<rparr>\<rparr>"

text \<open>
  Lines 30 to 57. The two spreads of lines 47 and 48 pass one argument per item; with more
  than \<open>max_args\<close> of them the call throws and nothing is returned.
\<close>

definition compute_stats :: "nat \<Rightarrow> item list \<Rightarrow> error + stats" where
  "compute_stats max_args items =
     (let total_n = length items;
          totalValue_sum = foldl (\<lambda>acc cur. js_add acc (price cur)) (Finite 0) items;
          averagePrice_raw = js_div totalValue_sum (Finite (of_nat total_n));
          cats = foldl category_step Map.empty items;
          prices = map price items
      in if max_args < length prices then Inl RangeError
         else Inr \<lparr>total = total_n,
                   averagePrice =
                     js_div (Math_round (js_mul averagePrice_raw (Finite 100))) (Finite 100),
                   totalValue =
                     js_div (Math_round (js_mul totalValue_sum (Finite 100))) (Finite 100),
                   categories = cats,
                   priceRange = \<lparr>range_min = Math_min prices, range_max = Math_max prices\<rparr>\<rparr>)"

text \<open>
  Line 20: \<open>!items\<close> holds for \<open>null\<close> and \<open>undefined\<close>; an array is truthy, so for it the
  test is \<open>items.length === 0\<close>.
\<close>

definition calculateStats :: "nat \<Rightarrow> items_arg \<Rightarrow> error + stats" where
  "calculateStats max_args arg =
     (case arg of
        Null \<Rightarrow> Inr empty_stats
      | Undefined \<Rightarrow> Inr empty_stats
      | Array items \<Rightarrow>
          if length items = 0 then Inr empty_stats else compute_stats max_args items)"

subsection \<open>The rounding rule and the tolerance in the words of the specification\<close>




text \<open>
  "Within floating tolerance": after \<open>k\<close> rounded operations on values of magnitude at
  most \<open>B\<close>, each of relative error at most \<open>2^-53\<close> (or of absolute error at most
  \<open>2^-1075\<close> below the normal range), the accumulated error is at most
  \<open>((1 + 2^-53)^k - 1) * (B + 2^-1022)\<close>, about \<open>k * B * 1.1e-16\<close>.
\<close>

definition unit_roundoff :: rat where
  "unit_roundoff = 1 / 2 ^ 53"

definition min_normal :: rat where
  "min_normal = 2 powi (- 1022)"

definition float_tol :: "nat \<Rightarrow> rat \<Rightarrow> rat" where
  "float_tol k B = ((1 + unit_roundoff) ^ k - 1) * (B + min_normal)"




section \<open>The module state and its entry points\<close>

subsection \<open>State, environment and outputs\<close>

text \<open>
  Lines 11, 12 and 89. \<open>None\<close> is \<open>null\<close>; the watcher is the \<open>FSWatcher\<close> handle that
  \<open>fs.watch\<close> returned, named by a number.
\<close>

record module_state =
  statsCache :: "stats option"
  cacheTimestamp :: "int option"
  watcher :: "nat option"

text \<open>
  What one \<open>fs.readFile(DATA_PATH, ...)\<close> and line 70 meet: \<open>readFile\<close> reports \<open>err\<close>; or
  \<open>JSON.parse\<close> throws inside the \<open>try\<close> block (as does line 71 on a parsed value that is
  neither \<open>null\<close> nor an array of item records); or the text parses to an argument of
  \<open>calculateStats\<close>.
\<close>

datatype store_read = Read_failed error | Parse_failed error | Parsed items_arg

text \<open>
  The JSON body \<open>{...stats, cached, cacheAge}\<close>; \<open>cacheAge = None\<close> is a body without the
  field.
\<close>

record response_body =
  summary :: stats
  cached :: bool
  cacheAge :: "int option"

datatype http_result = Res_json response_body | Next error

datatype effect =
    Console_log string
  | Console_error string error
  | Watch_open nat
  | Watch_close nat
  | Respond nat http_result

subsection \<open>\<open>loadStats\<close> (lines 64 to 83)\<close>

text \<open>
  The callback of \<open>readFile\<close>, with the result of the read and the value of \<open>Date.now()\<close>.
  It runs to completion once the read is done. The promise is rejected when the read
  reports an error and when anything inside the \<open>try\<close> block throws, a \<open>RangeError\<close> of
  \<open>calculateStats\<close> included; it is resolved with the statistics after both variables are
  assigned.
\<close>

definition loadStats ::
    "nat \<Rightarrow> store_read \<Rightarrow> int \<Rightarrow> module_state \<Rightarrow> (error + stats) \<times> module_state" where
  "loadStats max_args r now s =
     (case r of
        Read_failed err \<Rightarrow> (Inl err, s)
      | Parse_failed parseErr \<Rightarrow> (Inl parseErr, s)
      | Parsed items \<Rightarrow>
          (case calculateStats max_args items of
             Inl parseErr \<Rightarrow> (Inl parseErr, s)
           | Inr stats \<Rightarrow>
               (let s1 = s\<lparr>statsCache := Some stats\<rparr>;
                    s2 = s1\<lparr>cacheTimestamp := Some now\<rparr>
                in (Inr stats, s2))))"

text \<open>What the promise of \<open>loadStats\<close> settles with, as a function of the read alone.\<close>

definition load_outcome :: "nat \<Rightarrow> store_read \<Rightarrow> error + stats" where
  "load_outcome max_args r =
     (case r of
        Read_failed err \<Rightarrow> Inl err
      | Parse_failed parseErr \<Rightarrow> Inl parseErr
      | Parsed items \<Rightarrow> calculateStats max_args items)"

subsection \<open>\<open>setupFileWatcher\<close> and the watcher's callback (lines 90 to 116)\<close>

text \<open>
  \<open>fs_watch\<close> is what \<open>fs.watch\<close> does if it is called: it throws, or it returns a handle.
\<close>

definition setupFileWatcher :: "error + nat \<Rightarrow> module_state \<Rightarrow> module_state \<times> effect list" where
  "setupFileWatcher fs_watch s =
     (if watcher s \<noteq> None then (s, [])
      else case fs_watch of
             Inr h \<Rightarrow>
               (s\<lparr>watcher := Some h\<rparr>,
                [Watch_open h, Console_log ''File watcher initialized for stats caching''])
           | Inl err \<Rightarrow> (s, [Console_error ''Error setting up file watcher:'' err]))"

text \<open>
  Lines 97 to 104, up to the \<open>await\<close>: the part of the callback that runs when the event
  is delivered. The flag tells whether \<open>loadStats()\<close> was called, that is, whether a read
  of the store is now in flight.
\<close>

definition on_fs_event :: "string \<Rightarrow> module_state \<Rightarrow> module_state \<times> effect list \<times> bool" where
  "on_fs_event eventType s =
     (if eventType = ''change''
      then (let s1 = s\<lparr>statsCache := None\<rparr>;
                s2 = s1\<lparr>cacheTimestamp := None\<rparr>
            in (s2, [Console_log ''Data file changed, invalidating stats cache...''], True))
      else (s, [], False))"

text \<open>Lines 104 to 108: the rest of the callback, after \<open>loadStats()\<close> has settled.\<close>

definition on_refresh_settled :: "error + stats \<Rightarrow> effect list" where
  "on_refresh_settled r =
     (case r of
        Inr stats \<Rightarrow> [Console_log ''Stats cache refreshed'']
      | Inl err \<Rightarrow> [Console_error ''Error refreshing stats cache:'' err])"

subsection \<open>The \<open>GET /\<close> handler (lines 125 to 145) and \<open>_cleanup\<close> (lines 150 to 155)\<close>

text \<open>\<open>Date.now() - cacheTimestamp\<close> converts \<open>null\<close> to the number 0.\<close>

definition to_number :: "int option \<Rightarrow> int" where
  "to_number v = (case v of None \<Rightarrow> 0 | Some n \<Rightarrow> n)"

text \<open>
  Lines 128 to 134: with a cache entry the handler answers at once; \<open>None\<close> means that it
  goes on to \<open>await loadStats()\<close>.
\<close>

definition router_get_cached :: "int \<Rightarrow> module_state \<Rightarrow> http_result option" where
  "router_get_cached now s =
     (case statsCache s of
        Some st \<Rightarrow>
          Some (Res_json \<lparr>summary = st, cached = True,
                          cacheAge = Some (now - to_number (cacheTimestamp s))\<rparr>)
      | None \<Rightarrow> None)"

text \<open>Lines 137 to 144, after \<open>loadStats()\<close> has settled.\<close>

definition router_get_settled :: "error + stats \<Rightarrow> http_result" where
  "router_get_settled r =
     (case r of
        Inr stats \<Rightarrow> Res_json \<lparr>summary = stats, cached = False, cacheAge = None\<rparr>
      | Inl err \<Rightarrow> Next err)"

definition router_cleanup :: "module_state \<Rightarrow> module_state \<times> effect list" where
  "router_cleanup s =
     (case watcher s of
        Some h \<Rightarrow> (s\<lparr>watcher := None\<rparr>, [Watch_close h])
      | None \<Rightarrow> (s, []))"

subsection \<open>The event loop\<close>

text \<open>
  Node.js runs one callback at a time. A call of \<open>loadStats()\<close> starts a read and leaves
  a task behind that says who awaits it; the read's completion is a later event, and
  other events may come in between. The system state holds the module state, the reads
  in flight, everything written so far (console, responses, watcher handles) and the
  time of the last event.
\<close>

datatype task = Request_load nat | Refresh_load

record system =
  modst :: module_state
  pending :: "task list"
  effects :: "effect list"
  clock :: int

datatype event =
    Call_setup "error + nat"
  | Fs_event string
  | Http_get nat
  | ReadFile_done nat store_read
  | Call_cleanup

definition settle :: "task \<Rightarrow> error + stats \<Rightarrow> effect list" where
  "settle t res =
     (case t of
        Request_load rid \<Rightarrow> [Respond rid (router_get_settled res)]
      | Refresh_load \<Rightarrow> on_refresh_settled res)"

text \<open>
  One event at time \<open>now\<close>, the value \<open>Date.now()\<close> returns while the event is handled.
  The watcher's callback only runs while a watcher is open; a completion names the read
  in flight by its position. \<open>max_args\<close> is the engine's limit of \<open>calculateStats\<close>.
\<close>

fun step :: "nat \<Rightarrow> system \<Rightarrow> int \<times> event \<Rightarrow> system" where
  "step max_args sys (now, Call_setup fs_watch) =
     (let (s', out) = setupFileWatcher fs_watch (modst sys)
      in sys\<lparr>modst := s', effects := effects sys @ out, clock := now\<rparr>)"
| "step max_args sys (now, Fs_event eventType) =
     (case watcher (modst sys) of
        None \<Rightarrow> sys\<lparr>clock := now\<rparr>
      | Some h \<Rightarrow>
          (let (s', out, started) = on_fs_event eventType (modst sys)
           in sys\<lparr>modst := s',
                  pending := pending sys @ (if started then [Refresh_load] else []),
                  effects := effects sys @ out, clock := now\<rparr>))"
| "step max_args sys (now, Http_get rid) =
     (case router_get_cached now (modst sys) of
        Some resp \<Rightarrow> sys\<lparr>effects := effects sys @ [Respond rid resp], clock := now\<rparr>
      | None \<Rightarrow> sys\<lparr>pending := pending sys @ [Request_load rid], clock := now\<rparr>)"
| "step max_args sys (now, ReadFile_done i r) =
     (if i < length (pending sys)
      then (let (res, s') = loadStats max_args r now (modst sys)
            in sys\<lparr>modst := s',
                   pending := take i (pending sys) @ drop (Suc i) (pending sys),
                   effects := effects sys @ settle (pending sys ! i) res, clock := now\<rparr>)
      else sys\<lparr>clock := now\<rparr>)"
| "step max_args sys (now, Call_cleanup) =
     (let (s', out) = router_cleanup (modst sys)
      in sys\<lparr>modst := s', effects := effects sys @ out, clock := now\<rparr>)"

definition run :: "nat \<Rightarrow> system \<Rightarrow> (int \<times> event) list \<Rightarrow> system" where
  "run max_args sys evs = foldl (step max_args) sys evs"

text \<open>Lines 11, 12 and 89, before line 119 makes the first call of \<open>setupFileWatcher\<close>.\<close>

definition boot :: "int \<Rightarrow> system" where
  "boot t0 =
     \<lparr>modst = \<lparr>statsCache = None, cacheTimestamp = None, watcher = None\<rparr>,
      pending = [], effects = [], clock = t0\<rparr>"


text \<open>The cache entry is whole: value and timestamp are both unset or both set.\<close>

definition cache_paired :: "module_state \<Rightarrow> bool" where
  "cache_paired s = ((statsCache s = None) = (cacheTimestamp s = None))"

text \<open>Watcher handles opened and not yet closed, counted on the output.\<close>

fun opens :: "effect \<Rightarrow> nat" where
  "opens (Watch_open h) = 1"
| "opens e = 0"

fun closes :: "effect \<Rightarrow> nat" where
  "closes (Watch_close h) = 1"
| "closes e = 0"

definition open_handles :: "effect list \<Rightarrow> int" where
  "open_handles out = int (sum_list (map opens out)) - int (sum_list (map closes out))"

text \<open>Two bookkeeping invariants of the event loop, used in the proofs below.\<close>

definition handles_accounted :: "system \<Rightarrow> bool" where
  "handles_accounted sys =
     (open_handles (effects sys) = (if watcher (modst sys) = None then 0 else 1))"


section \<open>Properties of the computation\<close>

subsection \<open>The error of one rounding\<close>




lemma min_normal_pos: "0 < min_normal"
  unfolding min_normal_def by (rule zero_less_power_int) simp


subsection \<open>Accumulated error\<close>

lemma float_tol_nonneg: "0 \<le> B \<Longrightarrow> 0 \<le> float_tol k B"
proof -
  assume "0 \<le> B"
  have "1 \<le> (1 + unit_roundoff) ^ k"
    by (rule one_le_power) (simp add: unit_roundoff_def)
  moreover have "0 \<le> B + min_normal" using \<open>0 \<le> B\<close> min_normal_pos by simp
  ultimately show ?thesis by (simp add: float_tol_def)
qed










subsection \<open>Rounding to hundredths\<close>









lemma compute_stats_Inr:
  assumes "length items \<le> max_args"
  shows "compute_stats max_args items =
     Inr \<lparr>total = length items,
          averagePrice =
            js_div (Math_round (js_mul
              (js_div (foldl (\<lambda>acc cur. js_add acc (price cur)) (Finite 0) items)
                 (Finite (of_nat (length items))))
              (Finite 100))) (Finite 100),
          totalValue =
            js_div (Math_round (js_mul
              (foldl (\<lambda>acc cur. js_add acc (price cur)) (Finite 0) items)
              (Finite 100))) (Finite 100),
          categories = foldl category_step Map.empty items,
          priceRange = \<lparr>range_min = Math_min (map price items),
                        range_max = Math_max (map price items)\<rparr>\<rparr>"
  using assms by (simp add: compute_stats_def Let_def)






lemma calculateStats_Inr:
  assumes "items \<noteq> []" and "length items \<le> max_args"
  shows "\<exists>st. calculateStats max_args (Array items) = Inr st \<and> stats.total st = length items"
  using assms by (simp add: calculateStats_def compute_stats_Inr)


lemma calculateStats_guard:
  "calculateStats max_args (Array []) = Inr empty_stats"
  "calculateStats max_args Null = Inr empty_stats"
  "calculateStats max_args Undefined = Inr empty_stats"
  by (simp_all add: calculateStats_def)

subsection \<open>Count and total value\<close>







subsection \<open>Average price\<close>








subsection \<open>The category breakdown\<close>

lemma category_step_lookup:
  "category_step acc it k =
     (if category it = k
      then (case acc k of
              Some b \<Rightarrow> Some \<lparr>count = count b + 1,
                              cat_totalValue = js_add (cat_totalValue b) (price it)\<rparr>
            | None \<Rightarrow> if k \<in> set Object_prototype_keys then None
                      else Some \<lparr>count = 1, cat_totalValue = js_add (Finite 0) (price it)\<rparr>)
      else acc k)"
  by (auto simp: category_step_def get_property_def Let_def split: option.split)

lemma foldl_category_step:
  "foldl category_step acc items k =
     (let its = filter (\<lambda>i. category i = k) items in
      case acc k of
        Some b \<Rightarrow> Some \<lparr>count = count b + length its,
                        cat_totalValue = foldl js_add (cat_totalValue b) (map price its)\<rparr>
      | None \<Rightarrow> if k \<in> set Object_prototype_keys \<or> its = [] then None
                else Some \<lparr>count = length its,
                           cat_totalValue = foldl js_add (Finite 0) (map price its)\<rparr>)"
proof (induction items arbitrary: acc)
  case Nil
  then show ?case by (simp split: option.split)
next
  case (Cons it items)
  have "foldl category_step acc (it # items) k
          = foldl category_step (category_step acc it) items k"
    by (simp only: foldl_Cons)
  also have "\<dots> =
     (let its = filter (\<lambda>i. category i = k) items in
      case category_step acc it k of
        Some b \<Rightarrow> Some \<lparr>count = count b + length its,
                        cat_totalValue = foldl js_add (cat_totalValue b) (map price its)\<rparr>
      | None \<Rightarrow> if k \<in> set Object_prototype_keys \<or> its = [] then None
                else Some \<lparr>count = length its,
                           cat_totalValue = foldl js_add (Finite 0) (map price its)\<rparr>)"
    by (rule Cons.IH)
  finally show ?case
    by (simp add: category_step_lookup [of acc it k] Let_def split: option.split)
qed

text \<open>
  Whenever the computation returns, a category has a bucket exactly when some item has
  that very string as its category and the string is not a name inherited from
  \<open>Object.prototype\<close>; the bucket counts those items and adds their prices in order, as
  numbers, starting from 0.
\<close>

lemma categories_calculateStats:
  assumes "calculateStats max_args (Array items) = Inr st"
  shows "categories st k =
     (let its = filter (\<lambda>i. category i = k) items in
      if k \<in> set Object_prototype_keys \<or> its = [] then None
      else Some \<lparr>count = length its,
                 cat_totalValue = foldl js_add (Finite 0) (map price its)\<rparr>)"
proof (cases "items = []")
  case True
  with assms show ?thesis by (auto simp: calculateStats_def empty_stats_def)
next
  case False
  with assms have "categories st = foldl category_step Map.empty items"
    by (auto simp: calculateStats_def compute_stats_def Let_def split: if_splits)
  then show ?thesis
    by (simp add: foldl_category_step Let_def)
qed

lemma dom_categories:
  assumes "calculateStats max_args (Array items) = Inr st"
  shows "dom (categories st) = category ` set items - set Object_prototype_keys"
  by (auto simp: categories_calculateStats [OF assms] Let_def dom_def filter_empty_conv
      split: if_splits)

text \<open>
  The scenario of the specification: whenever exactly two items of the store have the
  category \<open>Electronics\<close>, priced 999.99 and 29.99, the bucket is
  \<open>{count: 2, totalValue: 1029.98}\<close>, each decimal standing for the number that
  \<open>JSON.parse\<close> makes of it.
\<close>

lemma Electronics_prices_add:
  "foldl js_add (Finite 0) [JSON_number (99999 / 100), JSON_number (2999 / 100)] =
     JSON_number (102998 / 100)"
  by code_simp

lemma categories_Electronics_scenario:
  assumes "calculateStats max_args (Array items) = Inr st"
    and "map price (filter (\<lambda>i. category i = ''Electronics'') items) =
           [JSON_number (99999 / 100), JSON_number (2999 / 100)]"
  shows "categories st ''Electronics'' =
           Some \<lparr>count = 2, cat_totalValue = JSON_number (102998 / 100)\<rparr>"
proof -
  have len: "length (filter (\<lambda>i. category i = ''Electronics'') items) = 2"
    using arg_cong [OF assms(2), of length] by simp
  then have ne: "filter (\<lambda>i. category i = ''Electronics'') items \<noteq> []"
    by auto
  have "''Electronics'' \<notin> set Object_prototype_keys"
    by (simp add: Object_prototype_keys_def)
  with len ne show ?thesis
    unfolding categories_calculateStats [OF assms(1)] Let_def assms(2) Electronics_prices_add
    by simp
qed

text \<open>
  C4, evaluated at the input on which the code departs from it: one item whose
  category is the string \<open>constructor\<close>. The claim asks for the key \<open>constructor\<close> with
  \<open>{count: 1, totalValue: 1}\<close>; the computed \<open>categories\<close> object has no key at all, because
  line 36 finds the inherited \<open>Object\<close> function under that name and lines 39 and 40 write
  to it. By \<open>dom_categories\<close> the same happens for every name in \<open>Object_prototype_keys\<close>,
  and for no other string.
\<close>

theorem categories_inherited_name:
  "\<forall>n. \<exists>st. calculateStats (Suc n) (Array
      [\<lparr>item_id = 1, name = ''Widget'', category = ''constructor'', price = Finite 1\<rparr>]) = Inr st
     \<and> categories st = Map.empty \<and> stats.total st = 1"
  by (simp add: calculateStats_def compute_stats_def Let_def category_step_def get_property_def
      Object_prototype_keys_def)

text \<open>
  C5. For the empty sequence of item records the computation returns exactly
  \<open>{total: 0, averagePrice: 0, totalValue: 0, categories: {}, priceRange: {min: 0, max: 0}}\<close>;
  the guard returns before the average is divided, so the quotient by the count 0 is
  never formed, and before the spreads of lines 47 and 48, so nothing is thrown.
\<close>

theorem calculateStats_empty:
  "calculateStats max_args (Array []) =
     Inr \<lparr>total = 0, averagePrice = Finite 0, totalValue = Finite 0, categories = Map.empty,
          priceRange = \<lparr>range_min = Finite 0, range_max = Finite 0\<rparr>\<rparr>"
  by (simp add: calculateStats_def empty_stats_def)

text \<open>
  C10. For \<open>null\<close> and for \<open>undefined\<close> the computation returns the same all-zero summary
  as for the empty sequence; it does not fail.
\<close>

theorem calculateStats_null_undefined:
  "calculateStats max_args Null =
     Inr \<lparr>total = 0, averagePrice = Finite 0, totalValue = Finite 0, categories = Map.empty,
          priceRange = \<lparr>range_min = Finite 0, range_max = Finite 0\<rparr>\<rparr>
   \<and> calculateStats max_args Undefined =
     Inr \<lparr>total = 0, averagePrice = Finite 0, totalValue = Finite 0, categories = Map.empty,
          priceRange = \<lparr>range_min = Finite 0, range_max = Finite 0\<rparr>\<rparr>"
  by (simp add: calculateStats_def empty_stats_def)

section \<open>Properties of the cache and the watcher\<close>

subsection \<open>Steps of the event loop\<close>


lemma step_get_absent:
  assumes "statsCache (modst sys) = None"
  shows "step max_args sys (now, Http_get rid) =
           sys\<lparr>pending := pending sys @ [Request_load rid], clock := now\<rparr>"
  using assms by (simp add: router_get_cached_def)

lemma loadStats_resolved:
  assumes "load_outcome max_args r = Inr st"
  shows "loadStats max_args r t s = (Inr st, s\<lparr>statsCache := Some st, cacheTimestamp := Some t\<rparr>)"
  using assms by (cases r) (simp_all add: loadStats_def load_outcome_def Let_def)

lemma loadStats_rejected:
  assumes "load_outcome max_args r = Inl e"
  shows "loadStats max_args r t s = (Inl e, s)"
  using assms by (cases r) (simp_all add: loadStats_def load_outcome_def)

lemma load_outcome_Parsed:
  "load_outcome max_args (Parsed items) = calculateStats max_args items"
  by (simp add: load_outcome_def)

lemma load_outcome_failed:
  "r = Read_failed e \<or> r = Parse_failed e \<Longrightarrow> load_outcome max_args r = Inl e"
  by (auto simp: load_outcome_def)

lemma step_read_resolved:
  assumes "i < length (pending sys)" and "load_outcome max_args r = Inr st"
  shows "step max_args sys (t, ReadFile_done i r) =
           sys\<lparr>modst := (modst sys)\<lparr>statsCache := Some st, cacheTimestamp := Some t\<rparr>,
               pending := take i (pending sys) @ drop (Suc i) (pending sys),
               effects := effects sys @ settle (pending sys ! i) (Inr st),
               clock := t\<rparr>"
  using assms(1) by (simp add: loadStats_resolved [OF assms(2)])

lemma step_read_rejected:
  assumes "i < length (pending sys)" and "load_outcome max_args r = Inl e"
  shows "step max_args sys (t, ReadFile_done i r) =
           sys\<lparr>pending := take i (pending sys) @ drop (Suc i) (pending sys),
               effects := effects sys @ settle (pending sys ! i) (Inl e),
               clock := t\<rparr>"
  using assms(1) by (simp add: loadStats_rejected [OF assms(2)])

lemma step_change:
  assumes "watcher (modst sys) = Some h"
  shows "step max_args sys (now, Fs_event ''change'') =
           sys\<lparr>modst := (modst sys)\<lparr>statsCache := None, cacheTimestamp := None\<rparr>,
               pending := pending sys @ [Refresh_load],
               effects := effects sys @
                 [Console_log ''Data file changed, invalidating stats cache...''],
               clock := now\<rparr>"
  using assms by (simp add: on_fs_event_def Let_def)

subsection \<open>The pairing of value and timestamp\<close>

lemma cache_paired_loadStats:
  "cache_paired s \<Longrightarrow> cache_paired (snd (loadStats max_args r now s))"
  by (cases r) (simp_all add: loadStats_def cache_paired_def Let_def split: sum.split)

lemma cache_paired_on_fs_event:
  "cache_paired s \<Longrightarrow> cache_paired (fst (on_fs_event ty s))"
  by (simp add: on_fs_event_def cache_paired_def Let_def)

lemma cache_paired_setup:
  "cache_paired s \<Longrightarrow> cache_paired (fst (setupFileWatcher r s))"
  by (simp add: setupFileWatcher_def cache_paired_def split: sum.split)

lemma cache_paired_cleanup:
  "cache_paired s \<Longrightarrow> cache_paired (fst (router_cleanup s))"
  by (simp add: router_cleanup_def cache_paired_def split: option.split)

lemma cache_paired_step:
  assumes "cache_paired (modst sys)"
  shows "cache_paired (modst (step max_args sys ev))"
proof (cases ev)
  case (Pair now e)
  show ?thesis
  proof (cases e)
    case (Call_setup r)
    with Pair cache_paired_setup [OF assms, of r] show ?thesis
      by (simp add: split_beta)
  next
    case (Fs_event ty)
    with Pair cache_paired_on_fs_event [OF assms, of ty] show ?thesis
      using assms by (simp add: split_beta split: option.split)
  next
    case (Http_get rid)
    with Pair assms show ?thesis
      by (simp split: option.split)
  next
    case (ReadFile_done i r)
    with Pair cache_paired_loadStats [OF assms, of max_args r now] show ?thesis
      using assms by (simp add: split_beta)
  next
    case Call_cleanup
    with Pair cache_paired_cleanup [OF assms] show ?thesis
      by (simp add: split_beta)
  qed
qed

lemma cache_paired_run:
  "cache_paired (modst sys) \<Longrightarrow> cache_paired (modst (run max_args sys evs))"
  unfolding run_def
  by (induction evs arbitrary: sys) (simp_all add: cache_paired_step)

subsection \<open>Time\<close>



subsection \<open>Watcher lifecycle\<close>

lemma open_handles_append:
  "open_handles (xs @ ys) = open_handles xs + open_handles ys"
  by (simp add: open_handles_def)

lemma handles_accounted_step:
  assumes "handles_accounted sys"
  shows "handles_accounted (step max_args sys ev)"
proof (cases ev)
  case (Pair now e)
  show ?thesis
  proof (cases e)
    case (Call_setup r)
    with Pair assms show ?thesis
      by (cases r)
        (auto simp: handles_accounted_def setupFileWatcher_def open_handles_append
          open_handles_def)
  next
    case (Fs_event ty)
    with Pair assms show ?thesis
      by (auto simp: handles_accounted_def on_fs_event_def open_handles_append
          open_handles_def Let_def split: option.split)
  next
    case (Http_get rid)
    with Pair assms show ?thesis
      by (auto simp: handles_accounted_def open_handles_append open_handles_def
          split: option.split)
  next
    case (ReadFile_done i r)
    with Pair assms show ?thesis
      by (cases r; cases "pending sys ! i")
        (auto simp: handles_accounted_def loadStats_def settle_def on_refresh_settled_def
          router_get_settled_def open_handles_append open_handles_def Let_def
          split: sum.splits)
  next
    case Call_cleanup
    with Pair assms show ?thesis
      by (auto simp: handles_accounted_def router_cleanup_def open_handles_append
          open_handles_def split: option.split)
  qed
qed

lemma handles_accounted_run:
  "handles_accounted sys \<Longrightarrow> handles_accounted (run max_args sys evs)"
  unfolding run_def
  by (induction evs arbitrary: sys) (simp_all add: handles_accounted_step)

lemma handles_accounted_boot: "handles_accounted (boot t0)"
  by (simp add: handles_accounted_def boot_def open_handles_def)

subsection \<open>The request handler\<close>




text \<open>
  C7. A request arrives while the cache is absent, and the read it starts fails:
  \<open>readFile\<close> reports an error, or parsing throws, or \<open>calculateStats\<close> throws. Then the
  request is answered by \<open>next(err)\<close> with that very error, the module state is as it was,
  and the cache is still absent. In whatever state the failing read completes, it changes
  no module variable and its only output is that error response.
\<close>

theorem request_read_failure_propagates:
  assumes "statsCache (modst sys) = None" and "load_outcome max_args r = Inl e"
  shows "(let sys1 = step max_args sys (now, Http_get rid);
             sys2 = step max_args sys1 (t, ReadFile_done (length (pending sys)) r) in
          sys1 = sys\<lparr>pending := pending sys @ [Request_load rid], clock := now\<rparr>
        \<and> sys2 = sys\<lparr>effects := effects sys @ [Respond rid (Next e)], clock := t\<rparr>
        \<and> statsCache (modst sys2) = None)
   \<and> (\<forall>sys' i.
         i < length (pending sys') \<and> pending sys' ! i = Request_load rid \<longrightarrow>
         step max_args sys' (t, ReadFile_done i r) =
           sys'\<lparr>pending := take i (pending sys') @ drop (Suc i) (pending sys'),
                effects := effects sys' @ [Respond rid (Next e)],
                clock := t\<rparr>)"
proof -
  have general: "\<forall>sys' i.
         i < length (pending sys') \<and> pending sys' ! i = Request_load rid \<longrightarrow>
         step max_args sys' (t, ReadFile_done i r) =
           sys'\<lparr>pending := take i (pending sys') @ drop (Suc i) (pending sys'),
                effects := effects sys' @ [Respond rid (Next e)],
                clock := t\<rparr>"
    using assms(2)
    by (simp add: step_read_rejected settle_def router_get_settled_def del: step.simps)
  have s1: "step max_args sys (now, Http_get rid) =
              sys\<lparr>pending := pending sys @ [Request_load rid], clock := now\<rparr>"
    using assms(1) by (rule step_get_absent)
  have s2: "step max_args (sys\<lparr>pending := pending sys @ [Request_load rid], clock := now\<rparr>)
              (t, ReadFile_done (length (pending sys)) r) =
            sys\<lparr>effects := effects sys @ [Respond rid (Next e)], clock := t\<rparr>"
    using assms(2)
    by (simp add: step_read_rejected settle_def router_get_settled_def del: step.simps)
  show ?thesis
    using general assms(1) by (simp add: s1 s2 Let_def del: step.simps)
qed

theorem request_read_failure_propagates_witness:
  "statsCache (modst (boot 0)) = None
   \<and> load_outcome 100 (Parse_failed (Error ''Unexpected end of JSON input'')) =
       Inl (Error ''Unexpected end of JSON input'')
   \<and> effects (run 100 (boot 0)
       [(1, Http_get 1),
        (2, ReadFile_done 0 (Parse_failed (Error ''Unexpected end of JSON input'')))]) =
       [Respond 1 (Next (Error ''Unexpected end of JSON input''))]
   \<and> statsCache (modst (run 100 (boot 0)
       [(1, Http_get 1),
        (2, ReadFile_done 0 (Parse_failed (Error ''Unexpected end of JSON input'')))])) = None
   \<and> cacheTimestamp (modst (run 100 (boot 0)
       [(1, Http_get 1),
        (2, ReadFile_done 0 (Parse_failed (Error ''Unexpected end of JSON input'')))])) = None"
  using request_read_failure_propagates
    [of "boot 0" 100 "Parse_failed (Error ''Unexpected end of JSON input'')"
        "Error ''Unexpected end of JSON input''" 1 1 2]
  by (simp add: run_def boot_def router_get_cached_def loadStats_def load_outcome_def
      settle_def router_get_settled_def Let_def)

subsection \<open>The change event\<close>

text \<open>
  C6. While a watcher is open, a \<open>change\<close> event clears both cache variables in the step
  that delivers it, before the read it starts has any result. When the read delivers
  contents from which \<open>calculateStats\<close> returns a summary, that summary is stored in the
  cache. When the read fails (\<open>readFile\<close> reports an error, parsing throws, or
  \<open>calculateStats\<close> throws), the error is written to the console and nowhere else (no
  request is answered with it), the cache stays absent, and the watcher stays open, so
  that the next event is handled in the same way. In whatever state a failing refresh
  completes, it changes no module variable.
\<close>

theorem change_event_invalidates_then_refreshes:
  assumes "watcher (modst sys) = Some h"
  shows "(let sys1 = step max_args sys (now, Fs_event ''change'') in
          sys1 = sys\<lparr>modst := (modst sys)\<lparr>statsCache := None, cacheTimestamp := None\<rparr>,
                     pending := pending sys @ [Refresh_load],
                     effects := effects sys @
                       [Console_log ''Data file changed, invalidating stats cache...''],
                     clock := now\<rparr>
        \<and> (\<forall>items st t. calculateStats max_args items = Inr st \<longrightarrow>
              step max_args sys1 (t, ReadFile_done (length (pending sys)) (Parsed items)) =
                sys\<lparr>modst := (modst sys)\<lparr>statsCache := Some st, cacheTimestamp := Some t\<rparr>,
                    effects := effects sys1 @ [Console_log ''Stats cache refreshed''],
                    clock := t\<rparr>)
        \<and> (\<forall>r e t. load_outcome max_args r = Inl e \<longrightarrow>
              (let sys2 = step max_args sys1 (t, ReadFile_done (length (pending sys)) r) in
               sys2 = sys1\<lparr>pending := pending sys,
                          effects := effects sys1 @
                            [Console_error ''Error refreshing stats cache:'' e],
                          clock := t\<rparr>
             \<and> statsCache (modst sys2) = None \<and> cacheTimestamp (modst sys2) = None
             \<and> watcher (modst sys2) = Some h)))
   \<and> (\<forall>sys' i r e t.
         i < length (pending sys') \<and> pending sys' ! i = Refresh_load
           \<and> load_outcome max_args r = Inl e \<longrightarrow>
         step max_args sys' (t, ReadFile_done i r) =
           sys'\<lparr>pending := take i (pending sys') @ drop (Suc i) (pending sys'),
                effects := effects sys' @ [Console_error ''Error refreshing stats cache:'' e],
                clock := t\<rparr>)"
proof -
  define sys1 where "sys1 = step max_args sys (now, Fs_event ''change'')"
  have s1: "sys1 = sys\<lparr>modst := (modst sys)\<lparr>statsCache := None, cacheTimestamp := None\<rparr>,
                     pending := pending sys @ [Refresh_load],
                     effects := effects sys @
                       [Console_log ''Data file changed, invalidating stats cache...''],
                     clock := now\<rparr>"
    unfolding sys1_def using assms by (rule step_change)
  have idx: "length (pending sys) < length (pending sys1)"
    and nth: "pending sys1 ! length (pending sys) = Refresh_load"
    and rest: "take (length (pending sys)) (pending sys1)
                 @ drop (Suc (length (pending sys))) (pending sys1) = pending sys"
    by (simp_all add: s1)
  have ok: "step max_args sys1 (t, ReadFile_done (length (pending sys)) (Parsed items)) =
                sys\<lparr>modst := (modst sys)\<lparr>statsCache := Some st, cacheTimestamp := Some t\<rparr>,
                    effects := effects sys1 @ [Console_log ''Stats cache refreshed''],
                    clock := t\<rparr>"
    if "calculateStats max_args items = Inr st" for items st t
  proof -
    from that have out: "load_outcome max_args (Parsed items) = Inr st"
      by (simp add: load_outcome_Parsed)
    show ?thesis
      unfolding step_read_resolved [OF idx out] nth rest
      by (simp add: s1 settle_def on_refresh_settled_def)
  qed
  have bad: "step max_args sys1 (t, ReadFile_done (length (pending sys)) r) =
               sys1\<lparr>pending := pending sys,
                    effects := effects sys1 @
                      [Console_error ''Error refreshing stats cache:'' e],
                    clock := t\<rparr>"
    if "load_outcome max_args r = Inl e" for r e t
    unfolding step_read_rejected [OF idx that] nth rest
    by (simp add: settle_def on_refresh_settled_def)
  have after: "statsCache (modst sys1) = None" "cacheTimestamp (modst sys1) = None"
    "watcher (modst sys1) = Some h"
    using assms by (simp_all add: s1)
  have general: "\<forall>sys' i r e t.
         i < length (pending sys') \<and> pending sys' ! i = Refresh_load
           \<and> load_outcome max_args r = Inl e \<longrightarrow>
         step max_args sys' (t, ReadFile_done i r) =
           sys'\<lparr>pending := take i (pending sys') @ drop (Suc i) (pending sys'),
                effects := effects sys' @ [Console_error ''Error refreshing stats cache:'' e],
                clock := t\<rparr>"
    by (auto simp: step_read_rejected settle_def on_refresh_settled_def simp del: step.simps)
  have main: "sys1 = sys\<lparr>modst := (modst sys)\<lparr>statsCache := None, cacheTimestamp := None\<rparr>,
                     pending := pending sys @ [Refresh_load],
                     effects := effects sys @
                       [Console_log ''Data file changed, invalidating stats cache...''],
                     clock := now\<rparr>
        \<and> (\<forall>items st t. calculateStats max_args items = Inr st \<longrightarrow>
              step max_args sys1 (t, ReadFile_done (length (pending sys)) (Parsed items)) =
                sys\<lparr>modst := (modst sys)\<lparr>statsCache := Some st, cacheTimestamp := Some t\<rparr>,
                    effects := effects sys1 @ [Console_log ''Stats cache refreshed''],
                    clock := t\<rparr>)
        \<and> (\<forall>r e t. load_outcome max_args r = Inl e \<longrightarrow>
              (let sys2 = step max_args sys1 (t, ReadFile_done (length (pending sys)) r) in
               sys2 = sys1\<lparr>pending := pending sys,
                          effects := effects sys1 @
                            [Console_error ''Error refreshing stats cache:'' e],
                          clock := t\<rparr>
             \<and> statsCache (modst sys2) = None \<and> cacheTimestamp (modst sys2) = None
             \<and> watcher (modst sys2) = Some h))"
    using s1 ok bad after by (simp add: Let_def del: step.simps)
  from main general show ?thesis
    unfolding sys1_def Let_def by (rule conjI)
qed

theorem change_event_invalidates_then_refreshes_witness:
  "\<exists>st. calculateStats 100 (Array
          [\<lparr>item_id = 1, name = ''Pen'', category = ''Office'', price = Finite (1 / 4)\<rparr>]) = Inr st
   \<and> load_outcome 100 (Read_failed (Error ''EACCES'')) = Inl (Error ''EACCES'')
   \<and> watcher (modst (run 100 (boot 0)
       [(0, Call_setup (Inr 7)), (1, Http_get 1),
        (2, ReadFile_done 0 (Parsed (Array [])))])) = Some 7
   \<and> statsCache (modst (run 100 (boot 0)
       [(0, Call_setup (Inr 7)), (1, Http_get 1),
        (2, ReadFile_done 0 (Parsed (Array [])))])) = Some empty_stats
   \<and> statsCache (modst (run 100 (boot 0)
       [(0, Call_setup (Inr 7)), (1, Http_get 1),
        (2, ReadFile_done 0 (Parsed (Array []))),
        (3, Fs_event ''change'')])) = None
   \<and> pending (run 100 (boot 0)
       [(0, Call_setup (Inr 7)), (1, Http_get 1),
        (2, ReadFile_done 0 (Parsed (Array []))),
        (3, Fs_event ''change'')]) = [Refresh_load]
   \<and> statsCache (modst (run 100 (boot 0)
       [(0, Call_setup (Inr 7)), (1, Http_get 1),
        (2, ReadFile_done 0 (Parsed (Array []))),
        (3, Fs_event ''change''),
        (4, ReadFile_done 0 (Read_failed (Error ''EACCES''))) ])) = None
   \<and> effects (run 100 (boot 0)
       [(0, Call_setup (Inr 7)), (1, Http_get 1),
        (2, ReadFile_done 0 (Parsed (Array []))),
        (3, Fs_event ''change''),
        (4, ReadFile_done 0 (Read_failed (Error ''EACCES''))) ]) =
       [Watch_open 7, Console_log ''File watcher initialized for stats caching'',
        Respond 1 (Res_json \<lparr>summary = empty_stats, cached = False, cacheAge = None\<rparr>),
        Console_log ''Data file changed, invalidating stats cache...'',
        Console_error ''Error refreshing stats cache:'' (Error ''EACCES'')]
   \<and> statsCache (modst (run 100 (boot 0)
       [(0, Call_setup (Inr 7)), (1, Http_get 1),
        (2, ReadFile_done 0 (Parsed (Array []))),
        (3, Fs_event ''change''),
        (4, ReadFile_done 0 (Parsed (Array
          [\<lparr>item_id = 1, name = ''Pen'', category = ''Office'',
            price = Finite (1 / 4)\<rparr>]))) ])) = Some st"
proof -
  obtain st where st: "calculateStats 100 (Array
          [\<lparr>item_id = 1, name = ''Pen'', category = ''Office'', price = Finite (1 / 4)\<rparr>]) = Inr st"
    using calculateStats_Inr
      [of "[\<lparr>item_id = 1, name = ''Pen'', category = ''Office'', price = Finite (1 / 4)\<rparr>]" 100]
    by auto
  show ?thesis
    using change_event_invalidates_then_refreshes
      [of "run 100 (boot 0)
         [(0, Call_setup (Inr 7)), (1, Http_get 1),
          (2, ReadFile_done 0 (Parsed (Array [])))]" 7 100 3]
    by (simp add: st calculateStats_guard run_def boot_def setupFileWatcher_def
        router_get_cached_def loadStats_def load_outcome_def on_fs_event_def
        on_refresh_settled_def settle_def router_get_settled_def Let_def)
qed

subsection \<open>The cache entry is whole\<close>

text \<open>
  C8. In every state the module reaches, by any sequence of events, the cached summary and
  its timestamp are both unset or both set; and each operation (\<open>loadStats\<close> whether it
  succeeds or fails, the change event, \<open>setupFileWatcher\<close>, \<open>_cleanup\<close>, and any step of the
  event loop, the request handler among them) keeps it so.
\<close>

theorem cache_entry_whole:
  "cache_paired (modst (run max_args (boot t0) evs))
   \<and> (cache_paired s \<longrightarrow>
        cache_paired (snd (loadStats max_args r now s))
      \<and> cache_paired (fst (on_fs_event eventType s))
      \<and> cache_paired (fst (setupFileWatcher fs_watch s))
      \<and> cache_paired (fst (router_cleanup s))
      \<and> cache_paired
          (modst (step max_args \<lparr>modst = s, pending = ps, effects = out, clock = c\<rparr> ev)))"
proof -
  have "cache_paired (modst (boot t0))"
    by (simp add: boot_def cache_paired_def)
  then have "cache_paired (modst (run max_args (boot t0) evs))"
    by (rule cache_paired_run)
  moreover have "cache_paired
      (modst (step max_args \<lparr>modst = s, pending = ps, effects = out, clock = c\<rparr> ev))"
    if "cache_paired s"
    using cache_paired_step [of "\<lparr>modst = s, pending = ps, effects = out, clock = c\<rparr>" max_args ev]
      that
    by simp
  ultimately show ?thesis
    using cache_paired_loadStats cache_paired_on_fs_event cache_paired_setup cache_paired_cleanup
    by blast
qed

theorem cache_entry_whole_witness:
  "cache_paired \<lparr>statsCache = Some empty_stats, cacheTimestamp = Some 3, watcher = Some 7\<rparr>
   \<and> cache_paired (snd (loadStats 100 (Parse_failed (Error ''Unexpected end of JSON input'')) 5
        \<lparr>statsCache = Some empty_stats, cacheTimestamp = Some 3, watcher = Some 7\<rparr>))
   \<and> cache_paired (snd (loadStats 100 (Parsed Null) 5
        \<lparr>statsCache = Some empty_stats, cacheTimestamp = Some 3, watcher = Some 7\<rparr>))
   \<and> cache_paired (fst (on_fs_event ''change''
        \<lparr>statsCache = Some empty_stats, cacheTimestamp = Some 3, watcher = Some 7\<rparr>))
   \<and> cache_paired (fst (router_cleanup
        \<lparr>statsCache = Some empty_stats, cacheTimestamp = Some 3, watcher = Some 7\<rparr>))
   \<and> cache_paired (modst (run 100 (boot 0)
        [(0, Call_setup (Inr 7)), (1, Http_get 1), (2, Fs_event ''change''),
         (3, ReadFile_done 1 (Parsed Null)), (4, Call_cleanup),
         (5, ReadFile_done 0 (Read_failed (Error ''EACCES'')))]))"
  using cache_entry_whole
    [of 100 0 "[(0, Call_setup (Inr 7)), (1, Http_get 1), (2, Fs_event ''change''),
         (3, ReadFile_done 1 (Parsed Null)), (4, Call_cleanup),
         (5, ReadFile_done 0 (Read_failed (Error ''EACCES'')))]"
        "\<lparr>statsCache = Some empty_stats, cacheTimestamp = Some 3, watcher = Some 7\<rparr>"
        "Parse_failed (Error ''Unexpected end of JSON input'')" 5 "''change''" "Inr 8"
        "[]" "[]" 0 "(1, Call_cleanup)"]
    cache_entry_whole
    [of 100 0 "[]"
        "\<lparr>statsCache = Some empty_stats, cacheTimestamp = Some 3, watcher = Some 7\<rparr>"
        "Parsed Null" 5 "''change''" "Inr 8" "[]" "[]" 0 "(1, Call_cleanup)"]
  by (simp add: cache_paired_def)

subsection \<open>Setup and cleanup are idempotent\<close>

text \<open>
  C9. \<open>setupFileWatcher\<close> does nothing when a watcher is already open, so a second call
  after a call that opened one does nothing. \<open>_cleanup\<close> does nothing when no watcher is
  open, hence nothing the second time it is called; when a watcher is open it closes
  that handle and sets \<open>watcher\<close> back to \<open>null\<close>. After any sequence of events the number
  of handles opened and not closed is 1 while watching and 0 otherwise.
\<close>

theorem watcher_lifecycle_idempotent:
  "(watcher s \<noteq> None \<longrightarrow> setupFileWatcher fs_watch s = (s, []))
   \<and> (watcher (fst (setupFileWatcher fs_watch s)) \<noteq> None \<longrightarrow>
        setupFileWatcher fs_watch' (fst (setupFileWatcher fs_watch s)) =
          (fst (setupFileWatcher fs_watch s), []))
   \<and> (watcher s = None \<longrightarrow> router_cleanup s = (s, []))
   \<and> router_cleanup (fst (router_cleanup s)) = (fst (router_cleanup s), [])
   \<and> (\<forall>h. watcher s = Some h \<longrightarrow>
        router_cleanup s = (s\<lparr>watcher := None\<rparr>, [Watch_close h]))
   \<and> watcher (fst (router_cleanup s)) = None
   \<and> open_handles (effects (run max_args (boot t0) evs)) =
        (if watcher (modst (run max_args (boot t0) evs)) = None then 0 else 1)"
proof -
  have "handles_accounted (run max_args (boot t0) evs)"
    using handles_accounted_boot by (rule handles_accounted_run)
  then have "open_handles (effects (run max_args (boot t0) evs)) =
        (if watcher (modst (run max_args (boot t0) evs)) = None then 0 else 1)"
    by (simp add: handles_accounted_def)
  moreover have "watcher s \<noteq> None \<longrightarrow> setupFileWatcher fs_watch s = (s, [])"
    by (simp add: setupFileWatcher_def)
  moreover have "watcher (fst (setupFileWatcher fs_watch s)) \<noteq> None \<longrightarrow>
        setupFileWatcher fs_watch' (fst (setupFileWatcher fs_watch s)) =
          (fst (setupFileWatcher fs_watch s), [])"
    by (simp add: setupFileWatcher_def)
  moreover have "watcher s = None \<longrightarrow> router_cleanup s = (s, [])"
    by (simp add: router_cleanup_def)
  moreover have "router_cleanup (fst (router_cleanup s)) = (fst (router_cleanup s), [])"
    by (simp add: router_cleanup_def split: option.split)
  moreover have "\<forall>h. watcher s = Some h \<longrightarrow>
        router_cleanup s = (s\<lparr>watcher := None\<rparr>, [Watch_close h])"
    by (simp add: router_cleanup_def)
  moreover have "watcher (fst (router_cleanup s)) = None"
    by (simp add: router_cleanup_def split: option.split)
  ultimately show ?thesis by blast
qed

theorem watcher_lifecycle_idempotent_witness:
  "watcher \<lparr>statsCache = None, cacheTimestamp = None, watcher = Some 7\<rparr> \<noteq> None
   \<and> setupFileWatcher (Inr 8) \<lparr>statsCache = None, cacheTimestamp = None, watcher = Some 7\<rparr> =
       (\<lparr>statsCache = None, cacheTimestamp = None, watcher = Some 7\<rparr>, [])
   \<and> router_cleanup \<lparr>statsCache = None, cacheTimestamp = None, watcher = Some 7\<rparr> =
       (\<lparr>statsCache = None, cacheTimestamp = None, watcher = None\<rparr>, [Watch_close 7])
   \<and> router_cleanup \<lparr>statsCache = None, cacheTimestamp = None, watcher = None\<rparr> =
       (\<lparr>statsCache = None, cacheTimestamp = None, watcher = None\<rparr>, [])
   \<and> setupFileWatcher (Inr 8)
        (fst (setupFileWatcher (Inr 7) \<lparr>statsCache = None, cacheTimestamp = None, watcher = None\<rparr>)) =
       (\<lparr>statsCache = None, cacheTimestamp = None, watcher = Some 7\<rparr>, [])
   \<and> open_handles (effects (run 100 (boot 0)
        [(0, Call_setup (Inr 7)), (1, Call_setup (Inr 8)), (2, Call_cleanup),
         (3, Call_cleanup)])) = 0"
  using watcher_lifecycle_idempotent
    [of "\<lparr>statsCache = None, cacheTimestamp = None, watcher = Some 7\<rparr>" "Inr 8" "Inr 8" 100 0
        "[(0, Call_setup (Inr 7)), (1, Call_setup (Inr 8)), (2, Call_cleanup),
          (3, Call_cleanup)]"]
    watcher_lifecycle_idempotent
    [of "\<lparr>statsCache = None, cacheTimestamp = None, watcher = None\<rparr>" "Inr 7" "Inr 8" 100 0 "[]"]
  by (simp add: run_def boot_def setupFileWatcher_def router_cleanup_def)

end
